theory Spec2Isabelle
  imports Main
begin

section \<open>The editing-mode extension of the collaboration plugin\<close>

text \<open>
  This theory embeds \<open>EditingModeExtension.createNew\<close> of
  \<open>packages/collaboration-extension/src/collaboration.ts\<close>: the three menus of a
  notebook panel (editing mode, suggestions, review), the closure variable
  \<open>myForkId\<close>, the command handlers and the listener \<open>_onStateChanged\<close> on the
  shared model.

  The handlers mutate closure variables and widgets; here they are functions from the
  state of one panel to its next state. Calls that leave the extension (the provider's
  \<open>fork\<close> and \<open>connectFork\<close>, \<open>requestDocMerge\<close>, the launch of a dialog) are appended to
  a log, in program order. Promises are events: the state counts the \<open>fork()\<close> promises
  that are not settled and lists the discovery dialogs that are not answered, and the
  continuation the source attached runs when the matching event arrives.
\<close>

subsection \<open>Data\<close>

text \<open>
  The commands that \<open>suggestionCommands\<close> can hold: the command \<open>root\<close>, and one
  closure per announced fork, which captures \<open>newForkId\<close>.
\<close>

datatype command = RootCommand | ForkCommand string

text \<open>The calls that leave the extension.\<close>

datatype call =
    Fork
  | ConnectFork string
  | RequestDocMerge string string
  | DiscoveryDialog string
  | ViewingDialog

text \<open>The one exception that the modelled code can meet: an id added twice to a registry.\<close>

datatype error = AlreadyRegistered string

text \<open>
  \<open>CommandRegistry.addCommand\<close> belongs to Lumino, not to this repository. Lumino
  throws when the id is already registered (\<open>RejectDuplicate\<close>). The other conceivable
  behaviour, a silent replacement (\<open>ReplaceDuplicate\<close>), is carried along so that the
  results can be stated without relying on the library's choice.
\<close>

datatype duplicate_policy = RejectDuplicate | ReplaceDuplicate

record session =
  myForkId :: string
  editingLabel :: string
  suggestionLabel :: string
  suggestionCommands :: "(string \<times> command) list"
  suggestionItems :: "string list"
  reviewItems :: "string list"
  rootRoomId :: string
  currentRoomId :: string
  pendingForks :: nat
  openDialogs :: "string list"
  calls :: "call list"

text \<open>
  The events that reach one panel: a click on a menu item, a change notification of the
  shared model (the names of the changed state fields, or nothing when the change has no
  \<open>stateChange\<close>), the settling of a \<open>fork()\<close> promise, and the answer to a discovery
  dialog (\<open>True\<close> for the button \<open>Open\<close>).
\<close>

datatype event =
    SelectEditing
  | SelectSuggesting
  | SelectSuggestion string
  | SelectReview string
  | Changed "string list option"
  | ForkResolved string
  | ForkRejected
  | DiscoveryAnswered string bool

subsection \<open>The provider\<close>

text \<open>
  Modelled from the spec: \<open>provider.connectFork\<close> lives in the docprovider package. The
  call is logged; following the data model of the specification (\<open>currentRoomId\<close> mirrors
  the room currently connected to), the target becomes the current room.
\<close>

definition connectFork :: "string \<Rightarrow> session \<Rightarrow> session" where
  "connectFork forkId s =
     s\<lparr>currentRoomId := forkId, calls := calls s @ [ConnectFork forkId]\<rparr>"

subsection \<open>Construction\<close>

text \<open>
  The state after \<open>createNew\<close> has run: \<open>myForkId\<close> is empty, the menu titles are
  \<open>Editing\<close> and \<open>Root\<close>, the suggestion menu holds the command \<open>root\<close>, the review menu
  is empty. The panel starts on the root document.
\<close>

definition createNew :: "string \<Rightarrow> session" where
  "createNew root =
     \<lparr>myForkId = '''',
      editingLabel = ''Editing'',
      suggestionLabel = ''Root'',
      suggestionCommands = [(''root'', RootCommand)],
      suggestionItems = [''root''],
      reviewItems = [],
      rootRoomId = root,
      currentRoomId = root,
      pendingForks = 0,
      openDialogs = [],
      calls = []\<rparr>"

subsection \<open>Command handlers\<close>

text \<open>The command \<open>editing\<close> of the editing menu.\<close>

definition editingExecute :: "session \<Rightarrow> session" where
  "editingExecute s = s\<lparr>editingLabel := ''Editing'', suggestionLabel := ''Root''\<rparr>"

text \<open>The continuation attached to \<open>provider.fork()\<close> with \<open>then\<close>.\<close>

definition forkThen :: "string \<Rightarrow> session \<Rightarrow> session" where
  "forkThen newForkId s =
     (connectFork newForkId (s\<lparr>myForkId := newForkId\<rparr>))\<lparr>suggestionLabel := newForkId\<rparr>"

text \<open>
  The command \<open>suggesting\<close> of the editing menu. With an empty \<open>myForkId\<close> it stores the
  placeholder and asks the provider for a fork; the promise is left pending. Otherwise it
  connects to whatever \<open>myForkId\<close> holds.
\<close>

definition suggestingExecute :: "session \<Rightarrow> session" where
  "suggestingExecute s =
     (let s1 = s\<lparr>editingLabel := ''Suggesting'', reviewItems := []\<rparr> in
      if myForkId s1 = ''''
      then s1\<lparr>myForkId := ''pending'',
              pendingForks := Suc (pendingForks s1),
              calls := calls s1 @ [Fork]\<rparr>
      else connectFork (myForkId s1) (s1\<lparr>suggestionLabel := myForkId s1\<rparr>))"

text \<open>The command \<open>root\<close> of the suggestion menu.\<close>

definition rootExecute :: "session \<Rightarrow> session" where
  "rootExecute s =
     connectFork (rootRoomId s)
       (s\<lparr>reviewItems := [], suggestionLabel := ''Root'', editingLabel := ''Editing''\<rparr>)"

text \<open>The commands \<open>merge\<close> and \<open>discard\<close> of the review menu.\<close>

definition mergeExecute :: "session \<Rightarrow> session" where
  "mergeExecute s = s\<lparr>calls := calls s @ [RequestDocMerge (currentRoomId s) (rootRoomId s)]\<rparr>"

definition discardExecute :: "session \<Rightarrow> session" where
  "discardExecute s = s"

text \<open>
  The command registered for an announced fork. The ownership test compares
  \<open>myForkId\<close> with the captured id; the dialog it launches afterwards only closes itself.
\<close>

definition forkExecute :: "string \<Rightarrow> session \<Rightarrow> session" where
  "forkExecute newForkId s =
     (let s1 = (if myForkId s = newForkId
                then s\<lparr>editingLabel := ''Suggesting'', reviewItems := []\<rparr>
                else s\<lparr>editingLabel := ''Editing'', reviewItems := [''merge'', ''discard'']\<rparr>);
          s2 = connectFork newForkId (s1\<lparr>suggestionLabel := newForkId\<rparr>)
      in s2\<lparr>calls := calls s2 @ [ViewingDialog]\<rparr>)"

text \<open>The continuation of the discovery dialog when the answer is \<open>Open\<close>.\<close>

definition discoveryOpen :: "string \<Rightarrow> session \<Rightarrow> session" where
  "discoveryOpen newForkId s =
     (connectFork newForkId s)
       \<lparr>suggestionLabel := newForkId,
        editingLabel := ''Editing'',
        reviewItems := [''merge'', ''discard'']\<rparr>"

subsection \<open>The listener on the shared model\<close>

definition addCommand ::
  "duplicate_policy \<Rightarrow> string \<Rightarrow> command \<Rightarrow> (string \<times> command) list
     \<Rightarrow> error + (string \<times> command) list" where
  "addCommand pol cid cmd reg =
     (if cid \<in> fst ` set reg
      then (case pol of
              RejectDuplicate \<Rightarrow> Inl (AlreadyRegistered cid)
            | ReplaceDuplicate \<Rightarrow>
                Inr (map (\<lambda>(k, c). if k = cid then (k, cmd) else (k, c)) reg))
      else Inr (reg @ [(cid, cmd)]))"

text \<open>
  The body of the \<open>forEach\<close> callback, for one changed field: a name with the prefix
  \<open>fork_\<close> registers a command and a menu item under the rest of the name, and launches
  the discovery dialog unless \<open>myForkId\<close> is the placeholder or that id.
\<close>

definition announce :: "duplicate_policy \<Rightarrow> string \<Rightarrow> session \<Rightarrow> error + session" where
  "announce pol name s =
     (if take 5 name = ''fork_''
      then (let newForkId = drop 5 name in
            case addCommand pol newForkId (ForkCommand newForkId) (suggestionCommands s) of
              Inl e \<Rightarrow> Inl e
            | Inr reg \<Rightarrow>
                (let s1 = s\<lparr>suggestionCommands := reg,
                            suggestionItems := suggestionItems s @ [newForkId]\<rparr>
                 in Inr (if myForkId s1 \<noteq> ''pending'' \<and> myForkId s1 \<noteq> newForkId
                         then s1\<lparr>openDialogs := openDialogs s1 @ [newForkId],
                                 calls := calls s1 @ [DiscoveryDialog newForkId]\<rparr>
                         else s1)))
      else Inr s)"

text \<open>
  The loop over the changed fields. An exception leaves the loop; what the earlier
  fields did stays done.
\<close>

fun forEach :: "duplicate_policy \<Rightarrow> string list \<Rightarrow> session \<Rightarrow> error option \<times> session" where
  "forEach pol [] s = (None, s)"
| "forEach pol (name # names) s =
     (case announce pol name s of
        Inl e \<Rightarrow> (Some e, s)
      | Inr s' \<Rightarrow> forEach pol names s')"

definition onStateChanged ::
  "duplicate_policy \<Rightarrow> string list option \<Rightarrow> session \<Rightarrow> error option \<times> session" where
  "onStateChanged pol stateChange s =
     (case stateChange of
        None \<Rightarrow> (None, s)
      | Some names \<Rightarrow> forEach pol names s)"

subsection \<open>Events\<close>

text \<open>
  A menu item can be selected only while it is in its menu; a promise settles only if it
  is pending; a dialog is answered only while it is open. An event that is not enabled
  leaves the state as it is. An exception of the listener is caught by the signal that
  called it, so the step keeps the state the listener reached.
\<close>

fun step :: "duplicate_policy \<Rightarrow> session \<Rightarrow> event \<Rightarrow> session" where
  "step pol s SelectEditing = editingExecute s"
| "step pol s SelectSuggesting = suggestingExecute s"
| "step pol s (SelectSuggestion c) =
     (if c \<in> set (suggestionItems s)
      then (case map_of (suggestionCommands s) c of
              Some RootCommand \<Rightarrow> rootExecute s
            | Some (ForkCommand f) \<Rightarrow> forkExecute f s
            | None \<Rightarrow> s)
      else s)"
| "step pol s (SelectReview c) =
     (if c \<in> set (reviewItems s)
      then (if c = ''merge'' then mergeExecute s
            else if c = ''discard'' then discardExecute s
            else s)
      else s)"
| "step pol s (Changed stateChange) = snd (onStateChanged pol stateChange s)"
| "step pol s (ForkResolved f) =
     (if 0 < pendingForks s
      then forkThen f (s\<lparr>pendingForks := pendingForks s - 1\<rparr>)
      else s)"
| "step pol s ForkRejected =
     (if 0 < pendingForks s then s\<lparr>pendingForks := pendingForks s - 1\<rparr> else s)"
| "step pol s (DiscoveryAnswered f opened) =
     (if f \<in> set (openDialogs s)
      then (let s1 = s\<lparr>openDialogs := remove1 f (openDialogs s)\<rparr>
            in if opened then discoveryOpen f s1 else s1)
      else s)"

definition run :: "duplicate_policy \<Rightarrow> session \<Rightarrow> event list \<Rightarrow> session" where
  "run pol s evs = foldl (step pol) s evs"

subsection \<open>Invariants used in the proofs\<close>

text \<open>
  At most one \<open>fork()\<close> has been requested, and none while \<open>myForkId\<close> is still empty.
\<close>

definition fork_inv :: "session \<Rightarrow> bool" where
  "fork_inv s \<longleftrightarrow>
     count_list (calls s) Fork \<le> 1 \<and>
     (myForkId s = '''' \<longrightarrow> count_list (calls s) Fork = 0 \<and> pendingForks s = 0)"

text \<open>
  At most one \<open>fork()\<close> promise is pending, and while it is, \<open>myForkId\<close> is the
  placeholder.
\<close>

definition pending_inv :: "session \<Rightarrow> bool" where
  "pending_inv s \<longleftrightarrow>
     pendingForks s \<le> 1 \<and> (0 < pendingForks s \<longrightarrow> myForkId s = ''pending'')"

text \<open>
  The command \<open>root\<close> stays in the suggestion menu and keeps its handler, and the root
  room of the shared model is fixed.
\<close>

definition root_inv :: "string \<Rightarrow> session \<Rightarrow> bool" where
  "root_inv root s \<longleftrightarrow>
     rootRoomId s = root \<and> ''root'' \<in> set (suggestionItems s) \<and>
     map_of (suggestionCommands s) ''root'' = Some RootCommand"

section \<open>Basic facts\<close>

lemmas handler_defs =
  connectFork_def editingExecute_def forkThen_def suggestingExecute_def rootExecute_def
  mergeExecute_def discardExecute_def forkExecute_def discoveryOpen_def

lemmas eval_defs =
  run_def createNew_def handler_defs onStateChanged_def announce_def addCommand_def Let_def

lemma run_Nil: "run pol s [] = s"
  by (simp add: run_def)

lemma run_Cons: "run pol s (e # evs) = run pol (step pol s e) evs"
  by (simp add: run_def)

lemma run_append: "run pol s (evs1 @ evs2) = run pol (run pol s evs1) evs2"
  by (simp add: run_def)

subsection \<open>What the listener leaves alone\<close>

lemma announce_frame:
  assumes "announce pol name s = Inr s'"
  shows "myForkId s' = myForkId s" and "pendingForks s' = pendingForks s"
    and "count_list (calls s') Fork = count_list (calls s) Fork"
  using assms
  by (auto simp: announce_def Let_def split: if_splits sum.splits)

lemma announce_own:
  assumes "announce pol name s = Inr s'"
  shows "count_list (calls s') (DiscoveryDialog (myForkId s)) =
         count_list (calls s) (DiscoveryDialog (myForkId s))"
  using assms
  by (auto simp: announce_def Let_def split: if_splits sum.splits)

lemma forEach_frame:
  "myForkId (snd (forEach pol names s)) = myForkId s \<and>
   pendingForks (snd (forEach pol names s)) = pendingForks s \<and>
   count_list (calls (snd (forEach pol names s))) Fork = count_list (calls s) Fork \<and>
   count_list (calls (snd (forEach pol names s))) (DiscoveryDialog (myForkId s)) =
     count_list (calls s) (DiscoveryDialog (myForkId s))"
proof (induction names arbitrary: s)
  case Nil
  show ?case by simp
next
  case (Cons name names)
  show ?case
  proof (cases "announce pol name s")
    case (Inl e)
    then show ?thesis by simp
  next
    case (Inr s')
    from announce_frame[OF Inr] announce_own[OF Inr] Cons.IH[of s'] Inr
    show ?thesis by simp
  qed
qed

lemma onStateChanged_frame:
  "myForkId (snd (onStateChanged pol sc s)) = myForkId s \<and>
   pendingForks (snd (onStateChanged pol sc s)) = pendingForks s \<and>
   count_list (calls (snd (onStateChanged pol sc s))) Fork = count_list (calls s) Fork \<and>
   count_list (calls (snd (onStateChanged pol sc s))) (DiscoveryDialog (myForkId s)) =
     count_list (calls s) (DiscoveryDialog (myForkId s))"
  using forEach_frame[of pol _ s]
  by (cases sc) (simp_all add: onStateChanged_def)

subsection \<open>The ownership test of a fork command\<close>

lemma forkExecute_own:
  "myForkId s = f \<Longrightarrow>
     reviewItems (forkExecute f s) = [] \<and> editingLabel (forkExecute f s) = ''Suggesting''"
  by (simp add: forkExecute_def connectFork_def)

lemma forkExecute_foreign:
  "myForkId s \<noteq> f \<Longrightarrow>
     reviewItems (forkExecute f s) = [''merge'', ''discard''] \<and>
     editingLabel (forkExecute f s) = ''Editing''"
  by (simp add: forkExecute_def connectFork_def)

lemma forkThen_keeps_review: "reviewItems (forkThen f s) = reviewItems s"
  by (simp add: forkThen_def connectFork_def)

subsection \<open>The fork request is made once\<close>

lemma step_fork_inv:
  assumes "fork_inv s" "e \<noteq> ForkResolved ''''"
  shows "fork_inv (step pol s e)"
proof (cases e)
  case (Changed sc)
  with assms onStateChanged_frame[of pol sc s] show ?thesis
    by (simp add: fork_inv_def)
next
  case (SelectSuggestion c)
  with assms show ?thesis
    by (auto simp: fork_inv_def handler_defs Let_def split: option.splits command.splits)
next
  case (ForkResolved f)
  with assms show ?thesis
    by (auto simp: fork_inv_def handler_defs Let_def)
qed (use assms in \<open>auto simp: fork_inv_def handler_defs Let_def\<close>)

lemma run_fork_inv:
  "fork_inv s \<Longrightarrow> ForkResolved '''' \<notin> set evs \<Longrightarrow> fork_inv (run pol s evs)"
proof (induction evs arbitrary: s)
  case Nil
  then show ?case by (simp add: run_Nil)
next
  case (Cons e evs)
  from Cons.prems have "e \<noteq> ForkResolved ''''" by auto
  with Cons.prems have "fork_inv (step pol s e)" by (simp add: step_fork_inv)
  with Cons show ?case by (simp add: run_Cons)
qed

lemma createNew_fork_inv: "fork_inv (createNew root)"
  by (simp add: fork_inv_def createNew_def)

subsection \<open>A pending fork request, and the time after it\<close>

lemma step_pending_inv:
  assumes "pending_inv s"
  shows "pending_inv (step pol s e)"
proof (cases e)
  case (Changed sc)
  with assms onStateChanged_frame[of pol sc s] show ?thesis
    by (simp add: pending_inv_def)
next
  case (SelectSuggestion c)
  with assms show ?thesis
    by (auto simp: pending_inv_def handler_defs Let_def split: option.splits command.splits)
qed (use assms in \<open>auto simp: pending_inv_def handler_defs Let_def\<close>)

lemma run_pending_inv: "pending_inv s \<Longrightarrow> pending_inv (run pol s evs)"
  by (induction evs arbitrary: s) (simp_all add: run_Nil run_Cons step_pending_inv)

lemma createNew_pending_inv: "pending_inv (createNew root)"
  by (simp add: pending_inv_def createNew_def)

lemma step_own:
  assumes "myForkId s = f" "pendingForks s = 0" "f \<noteq> ''''"
  shows "myForkId (step pol s e) = f \<and> pendingForks (step pol s e) = 0 \<and>
         count_list (calls (step pol s e)) (DiscoveryDialog f) =
           count_list (calls s) (DiscoveryDialog f)"
proof (cases e)
  case (Changed sc)
  with assms onStateChanged_frame[of pol sc s] show ?thesis
    by simp
next
  case (SelectSuggestion c)
  with assms show ?thesis
    by (auto simp: handler_defs Let_def split: option.splits command.splits)
qed (use assms in \<open>auto simp: handler_defs Let_def\<close>)

lemma run_own:
  assumes "myForkId s = f" "pendingForks s = 0" "f \<noteq> ''''"
  shows "myForkId (run pol s evs) = f \<and>
         count_list (calls (run pol s evs)) (DiscoveryDialog f) =
           count_list (calls s) (DiscoveryDialog f)"
  using assms
proof (induction evs arbitrary: s)
  case Nil
  then show ?case by (simp add: run_Nil)
next
  case (Cons e evs)
  from step_own[OF Cons.prems, of pol e] Cons.IH[of "step pol s e"] Cons.prems(3)
  show ?case by (simp add: run_Cons)
qed

subsection \<open>The command root is never replaced\<close>

lemma step_root_inv:
  assumes "root_inv root s"
  shows "root_inv root (step RejectDuplicate s e)"
proof (cases e)
  case (Changed sc)
  have ann: "root_inv root t \<Longrightarrow> announce RejectDuplicate n t = Inr t' \<Longrightarrow> root_inv root t'" for n t t'
    by (auto simp: root_inv_def announce_def addCommand_def Let_def split: if_splits sum.splits)
  have "root_inv root t \<Longrightarrow> root_inv root (snd (forEach RejectDuplicate ns t))" for ns t
  proof (induction ns arbitrary: t)
    case Nil
    then show ?case by simp
  next
    case (Cons n ns)
    then show ?case
      by (cases "announce RejectDuplicate n t") (auto dest: ann)
  qed
  with assms Changed show ?thesis
    by (cases sc) (simp_all add: onStateChanged_def)
next
  case (SelectSuggestion c)
  with assms show ?thesis
    by (auto simp: root_inv_def handler_defs Let_def split: option.splits command.splits)
qed (use assms in \<open>auto simp: root_inv_def handler_defs Let_def\<close>)

lemma run_root_inv: "root_inv root s \<Longrightarrow> root_inv root (run RejectDuplicate s evs)"
  by (induction evs arbitrary: s) (simp_all add: run_Nil run_Cons step_root_inv)

lemma createNew_root_inv: "root_inv root (createNew root)"
  by (simp add: root_inv_def createNew_def)

section \<open>The claims\<close>

subsection \<open>C1: one fork request per client\<close>

text \<open>
  C1. Whatever the sequence of events of one panel (with or without a selection of
  \<open>Root\<close>), at most one \<open>fork()\<close> call is issued, provided the provider never answers
  with the empty id; once the call is issued \<open>myForkId\<close> is not empty. The selection of
  \<open>Suggesting\<close> with an empty \<open>myForkId\<close> stores \<open>pending\<close> and issues \<open>fork()\<close>; the
  resolution stores the returned id, calls \<open>connectFork\<close> with it and shows it as the title
  of the suggestion menu; a selection of \<open>Suggesting\<close> with a non-empty \<open>myForkId\<close>
  connects to the stored id and issues no \<open>fork()\<close>.
\<close>

theorem single_fork_request:
  assumes "ForkResolved '''' \<notin> set evs"
  shows "count_list (calls (run pol (createNew root) evs)) Fork \<le> 1 \<and>
         (Fork \<in> set (calls (run pol (createNew root) evs))
            \<longrightarrow> myForkId (run pol (createNew root) evs) \<noteq> '''') \<and>
         step pol s SelectSuggesting =
           (if myForkId s = ''''
            then s\<lparr>editingLabel := ''Suggesting'', reviewItems := [], myForkId := ''pending'',
                   pendingForks := Suc (pendingForks s), calls := calls s @ [Fork]\<rparr>
            else s\<lparr>editingLabel := ''Suggesting'', reviewItems := [],
                   suggestionLabel := myForkId s, currentRoomId := myForkId s,
                   calls := calls s @ [ConnectFork (myForkId s)]\<rparr>) \<and>
         step pol s (ForkResolved f) =
           (if 0 < pendingForks s
            then s\<lparr>pendingForks := pendingForks s - 1, myForkId := f, currentRoomId := f,
                   suggestionLabel := f, calls := calls s @ [ConnectFork f]\<rparr>
            else s)"
proof -
  let ?t = "run pol (createNew root) evs"
  have inv: "fork_inv ?t"
    using assms by (simp add: run_fork_inv createNew_fork_inv)
  have a: "count_list (calls ?t) Fork \<le> 1"
    using inv by (simp add: fork_inv_def)
  have b: "Fork \<in> set (calls ?t) \<longrightarrow> myForkId ?t \<noteq> ''''"
    using inv by (auto simp: fork_inv_def count_list_0_iff)
  have c: "step pol s SelectSuggesting =
           (if myForkId s = ''''
            then s\<lparr>editingLabel := ''Suggesting'', reviewItems := [], myForkId := ''pending'',
                   pendingForks := Suc (pendingForks s), calls := calls s @ [Fork]\<rparr>
            else s\<lparr>editingLabel := ''Suggesting'', reviewItems := [],
                   suggestionLabel := myForkId s, currentRoomId := myForkId s,
                   calls := calls s @ [ConnectFork (myForkId s)]\<rparr>)"
    by (simp add: suggestingExecute_def connectFork_def)
  have d: "step pol s (ForkResolved f) =
           (if 0 < pendingForks s
            then s\<lparr>pendingForks := pendingForks s - 1, myForkId := f, currentRoomId := f,
                   suggestionLabel := f, calls := calls s @ [ConnectFork f]\<rparr>
            else s)"
    by (simp add: forkThen_def connectFork_def)
  from a b c d show ?thesis by blast
qed

theorem single_fork_request_witness:
  "ForkResolved '''' \<notin>
     set [SelectSuggesting, SelectSuggesting, ForkResolved ''f1'', SelectSuggestion ''root'',
          SelectSuggesting] \<and>
   calls (run RejectDuplicate (createNew ''room'')
     [SelectSuggesting, SelectSuggesting, ForkResolved ''f1'', SelectSuggestion ''root'',
      SelectSuggesting]) =
     [Fork, ConnectFork ''pending'', ConnectFork ''f1'', ConnectFork ''room'', ConnectFork ''f1''] \<and>
   count_list (calls (run RejectDuplicate (createNew ''room'')
     [SelectSuggesting, SelectSuggesting, ForkResolved ''f1'', SelectSuggestion ''root'',
      SelectSuggesting])) Fork \<le> 1 \<and>
   myForkId (run RejectDuplicate (createNew ''room'')
     [SelectSuggesting, SelectSuggesting, ForkResolved ''f1'', SelectSuggestion ''root'',
      SelectSuggesting]) = ''f1''"
proof -
  have h: "ForkResolved '''' \<notin>
     set [SelectSuggesting, SelectSuggesting, ForkResolved ''f1'', SelectSuggestion ''root'',
          SelectSuggesting]"
    by simp
  have c: "calls (run RejectDuplicate (createNew ''room'')
     [SelectSuggesting, SelectSuggesting, ForkResolved ''f1'', SelectSuggestion ''root'',
      SelectSuggesting]) =
     [Fork, ConnectFork ''pending'', ConnectFork ''f1'', ConnectFork ''room'', ConnectFork ''f1'']"
    by (simp add: eval_defs)
  have m: "myForkId (run RejectDuplicate (createNew ''room'')
     [SelectSuggesting, SelectSuggesting, ForkResolved ''f1'', SelectSuggestion ''root'',
      SelectSuggesting]) = ''f1''"
    by (simp add: eval_defs)
  from single_fork_request[OF h, of RejectDuplicate "''room''"] h c m
  show ?thesis by blast
qed

subsection \<open>C2: review actions on the client's own fork\<close>

text \<open>
  C2. The claim is that the review menu never offers \<open>Merge\<close> for the fork whose id is
  \<open>myForkId\<close>. The code misses one interleaving. The client selects \<open>Suggesting\<close>; the
  announcement of its new fork arrives before the \<open>fork()\<close> promise resolves; the client
  selects that fork from the suggestion menu, where the ownership test compares the id with
  the placeholder \<open>pending\<close> and fills the review menu; the promise resolves and stores the
  id without clearing the review menu. The client is then on its own fork with \<open>Merge\<close> and
  \<open>Discard\<close> offered.
\<close>

theorem own_fork_offered_for_merge:
  "myForkId (run RejectDuplicate (createNew ''room'')
     [SelectSuggesting, Changed (Some [''fork_f1'']), SelectSuggestion ''f1'',
      ForkResolved ''f1'']) = ''f1'' \<and>
   suggestionLabel (run RejectDuplicate (createNew ''room'')
     [SelectSuggesting, Changed (Some [''fork_f1'']), SelectSuggestion ''f1'',
      ForkResolved ''f1'']) = ''f1'' \<and>
   currentRoomId (run RejectDuplicate (createNew ''room'')
     [SelectSuggesting, Changed (Some [''fork_f1'']), SelectSuggestion ''f1'',
      ForkResolved ''f1'']) = ''f1'' \<and>
   reviewItems (run RejectDuplicate (createNew ''room'')
     [SelectSuggesting, Changed (Some [''fork_f1'']), SelectSuggestion ''f1'',
      ForkResolved ''f1'']) = [''merge'', ''discard'']"
  by (simp add: eval_defs)

subsection \<open>C3: the client's own fork stays its own\<close>

text \<open>
  C3. Let \<open>f\<close> be a fork id (not the empty string, not the placeholder \<open>pending\<close>). Once
  \<open>myForkId\<close> is \<open>f\<close>, it is \<open>f\<close> after every further sequence of events, and no
  further discovery dialog is launched for \<open>f\<close>: every later announcement of \<open>f\<close> is taken as
  the client's own fork.
\<close>

theorem ownership_is_stable:
  assumes "myForkId (run pol (createNew root) evs1) = f"
    and "f \<noteq> ''''" and "f \<noteq> ''pending''"
  shows "myForkId (run pol (createNew root) (evs1 @ evs2)) = f \<and>
         count_list (calls (run pol (createNew root) (evs1 @ evs2))) (DiscoveryDialog f) =
           count_list (calls (run pol (createNew root) evs1)) (DiscoveryDialog f)"
proof -
  let ?s = "run pol (createNew root) evs1"
  have "pending_inv ?s"
    by (simp add: run_pending_inv createNew_pending_inv)
  with assms have "pendingForks ?s = 0"
    by (auto simp: pending_inv_def)
  from run_own[OF assms(1) this assms(2), of pol evs2] show ?thesis
    by (simp add: run_append)
qed

theorem ownership_is_stable_witness:
  "myForkId (run RejectDuplicate (createNew ''room'')
      [SelectSuggesting, ForkResolved ''f1'']) = ''f1'' \<and>
   ''f1'' \<noteq> '''' \<and> ''f1'' \<noteq> ''pending'' \<and>
   myForkId (run RejectDuplicate (createNew ''room'')
      ([SelectSuggesting, ForkResolved ''f1''] @
       [Changed (Some [''fork_f1'']), SelectSuggestion ''root'',
        Changed (Some [''fork_f2'', ''fork_f1''])])) = ''f1'' \<and>
   count_list (calls (run RejectDuplicate (createNew ''room'')
      ([SelectSuggesting, ForkResolved ''f1''] @
       [Changed (Some [''fork_f1'']), SelectSuggestion ''root'',
        Changed (Some [''fork_f2'', ''fork_f1''])])))
     (DiscoveryDialog ''f1'') = 0"
proof -
  have h: "myForkId (run RejectDuplicate (createNew ''room'')
      [SelectSuggesting, ForkResolved ''f1'']) = ''f1''"
    by (simp add: eval_defs)
  have c: "count_list (calls (run RejectDuplicate (createNew ''room'')
      [SelectSuggesting, ForkResolved ''f1''])) (DiscoveryDialog ''f1'') = 0"
    by (simp add: eval_defs)
  from ownership_is_stable[OF h, of "[Changed (Some [''fork_f1'']), SelectSuggestion ''root'',
        Changed (Some [''fork_f2'', ''fork_f1''])]"] h c
  show ?thesis by simp
qed

subsection \<open>C4: a rejected fork request\<close>

text \<open>
  C4, as claimed: after a rejection the panel is back in \<open>Editing\<close> with an empty
  \<open>myForkId\<close> and a new selection of \<open>Suggesting\<close> issues a fresh \<open>fork()\<close>. The source
  attaches no rejection handler: after the rejection \<open>myForkId\<close> is still \<open>pending\<close>, the
  title of the editing menu is still \<open>Suggesting\<close>, and the next selection of
  \<open>Suggesting\<close> issues no \<open>fork()\<close> but connects to \<open>pending\<close>.
\<close>

theorem fork_rejection_rollback_counterexample:
  "myForkId (run RejectDuplicate (createNew ''room'') [SelectSuggesting, ForkRejected])
     = ''pending'' \<and>
   myForkId (run RejectDuplicate (createNew ''room'') [SelectSuggesting, ForkRejected])
     \<noteq> '''' \<and>
   editingLabel (run RejectDuplicate (createNew ''room'') [SelectSuggesting, ForkRejected])
     \<noteq> ''Editing'' \<and>
   calls (run RejectDuplicate (createNew ''room'')
     [SelectSuggesting, ForkRejected, SelectSuggesting]) = [Fork, ConnectFork ''pending'']"
  by (simp add: eval_defs)

text \<open>
  C4, amended. A rejection of the pending \<open>fork()\<close> request settles the promise and
  changes nothing else: \<open>myForkId\<close> stays \<open>pending\<close> and the menus are as they were. A
  later selection of \<open>Suggesting\<close> issues no \<open>fork()\<close> request; it calls \<open>connectFork\<close>
  with the placeholder.
\<close>

theorem fork_rejection_not_handled:
  assumes "0 < pendingForks s" and "myForkId s = ''pending''"
  shows "step pol s ForkRejected = s\<lparr>pendingForks := pendingForks s - 1\<rparr> \<and>
         myForkId (step pol s ForkRejected) = ''pending'' \<and>
         calls (step pol (step pol s ForkRejected) SelectSuggesting) =
           calls s @ [ConnectFork ''pending''] \<and>
         myForkId (step pol (step pol s ForkRejected) SelectSuggesting) = ''pending''"
  using assms by (simp add: suggestingExecute_def connectFork_def)

theorem fork_rejection_not_handled_witness:
  "0 < pendingForks (run RejectDuplicate (createNew ''room'') [SelectSuggesting]) \<and>
   myForkId (run RejectDuplicate (createNew ''room'') [SelectSuggesting]) = ''pending'' \<and>
   myForkId (step RejectDuplicate
       (run RejectDuplicate (createNew ''room'') [SelectSuggesting]) ForkRejected) = ''pending'' \<and>
   calls (step RejectDuplicate (step RejectDuplicate
       (run RejectDuplicate (createNew ''room'') [SelectSuggesting]) ForkRejected)
       SelectSuggesting) = [Fork, ConnectFork ''pending'']"
proof -
  have h1: "0 < pendingForks (run RejectDuplicate (createNew ''room'') [SelectSuggesting])"
    by (simp add: eval_defs)
  have h2: "myForkId (run RejectDuplicate (createNew ''room'') [SelectSuggesting]) = ''pending''"
    by (simp add: eval_defs)
  have c: "calls (run RejectDuplicate (createNew ''room'') [SelectSuggesting]) = [Fork]"
    by (simp add: eval_defs)
  from fork_rejection_not_handled[OF h1 h2, of RejectDuplicate] h1 h2 c
  show ?thesis by simp
qed

subsection \<open>C5: the command Root\<close>

text \<open>
  C5, as claimed: selecting \<open>Root\<close> resets \<open>myForkId\<close> to the empty string. The handler
  does not assign \<open>myForkId\<close>: a client whose fork is \<open>f1\<close> still has \<open>myForkId = f1\<close>
  after selecting \<open>Root\<close>.
\<close>

theorem root_resets_fork_id_counterexample:
  "myForkId (run RejectDuplicate (createNew ''room'')
     [SelectSuggesting, ForkResolved ''f1'', SelectSuggestion ''root'']) = ''f1'' \<and>
   myForkId (run RejectDuplicate (createNew ''room'')
     [SelectSuggesting, ForkResolved ''f1'', SelectSuggestion ''root'']) \<noteq> ''''"
  by (simp add: eval_defs)

text \<open>
  C5, amended. In every state the panel can reach, selecting \<open>Root\<close> from the suggestion
  menu calls \<open>connectFork\<close> with \<open>rootRoomId\<close>, sets the titles to \<open>Editing\<close> and \<open>Root\<close>,
  empties the review menu and changes nothing else; in particular \<open>myForkId\<close> keeps its
  value.
\<close>

theorem root_keeps_fork_id:
  assumes "s = run RejectDuplicate (createNew root) evs"
  shows "step RejectDuplicate s (SelectSuggestion ''root'') =
           s\<lparr>reviewItems := [], suggestionLabel := ''Root'', editingLabel := ''Editing'',
             currentRoomId := root, calls := calls s @ [ConnectFork root]\<rparr> \<and>
         rootRoomId s = root \<and>
         myForkId (step RejectDuplicate s (SelectSuggestion ''root'')) = myForkId s"
proof -
  have "root_inv root s"
    using assms by (simp add: run_root_inv createNew_root_inv)
  then show ?thesis
    by (simp add: root_inv_def rootExecute_def connectFork_def)
qed

theorem root_keeps_fork_id_witness:
  "myForkId (run RejectDuplicate (createNew ''room'')
      [SelectSuggesting, ForkResolved ''f1'', Changed (Some [''fork_f2'']),
       DiscoveryAnswered ''f2'' True]) = ''f1'' \<and>
   reviewItems (run RejectDuplicate (createNew ''room'')
      [SelectSuggesting, ForkResolved ''f1'', Changed (Some [''fork_f2'']),
       DiscoveryAnswered ''f2'' True]) = [''merge'', ''discard''] \<and>
   step RejectDuplicate
     (run RejectDuplicate (createNew ''room'')
        [SelectSuggesting, ForkResolved ''f1'', Changed (Some [''fork_f2'']),
         DiscoveryAnswered ''f2'' True])
     (SelectSuggestion ''root'') =
   \<lparr>myForkId = ''f1'', editingLabel = ''Editing'', suggestionLabel = ''Root'',
    suggestionCommands = [(''root'', RootCommand), (''f2'', ForkCommand ''f2'')],
    suggestionItems = [''root'', ''f2''], reviewItems = [],
    rootRoomId = ''room'', currentRoomId = ''room'', pendingForks = 0, openDialogs = [],
    calls = [Fork, ConnectFork ''f1'', DiscoveryDialog ''f2'', ConnectFork ''f2'',
             ConnectFork ''room'']\<rparr>"
proof -
  have e: "run RejectDuplicate (createNew ''room'')
        [SelectSuggesting, ForkResolved ''f1'', Changed (Some [''fork_f2'']),
         DiscoveryAnswered ''f2'' True] =
   \<lparr>myForkId = ''f1'', editingLabel = ''Editing'', suggestionLabel = ''f2'',
    suggestionCommands = [(''root'', RootCommand), (''f2'', ForkCommand ''f2'')],
    suggestionItems = [''root'', ''f2''], reviewItems = [''merge'', ''discard''],
    rootRoomId = ''room'', currentRoomId = ''f2'', pendingForks = 0, openDialogs = [],
    calls = [Fork, ConnectFork ''f1'', DiscoveryDialog ''f2'', ConnectFork ''f2'']\<rparr>"
    by (simp add: eval_defs)
  from root_keeps_fork_id[OF refl, of "''room''"
      "[SelectSuggesting, ForkResolved ''f1'', Changed (Some [''fork_f2'']),
        DiscoveryAnswered ''f2'' True]"]
  show ?thesis by (simp add: e)
qed

subsection \<open>C6: a fork announced twice\<close>

text \<open>
  C6, as claimed: the second announcement of a fork id raises nothing and leaves the
  registration as it is. With Lumino's registry the second \<open>addCommand\<close> raises. Were the
  registry to replace the command silently instead, the suggestion menu would get a second
  item for the same id.
\<close>

theorem duplicate_announcement_counterexample:
  "onStateChanged RejectDuplicate (Some [''fork_f1''])
     (run RejectDuplicate (createNew ''room'') [Changed (Some [''fork_f1''])]) =
     (Some (AlreadyRegistered ''f1''),
      run RejectDuplicate (createNew ''room'') [Changed (Some [''fork_f1''])]) \<and>
   suggestionItems (run ReplaceDuplicate (createNew ''room'') [Changed (Some [''fork_f1''])]) =
     [''root'', ''f1''] \<and>
   suggestionItems (snd (onStateChanged ReplaceDuplicate (Some [''fork_f1''])
     (run ReplaceDuplicate (createNew ''room'') [Changed (Some [''fork_f1''])]))) =
     [''root'', ''f1'', ''f1'']"
  by (simp add: eval_defs)

text \<open>
  C6, amended. The listener does not recognise a fork id it has seen: it repeats the
  registration. For an id that is already registered, the command registry refuses the
  second \<open>addCommand\<close> with an exception, and the listener stops at that field: the state
  is the one before the field, no menu item is added, no discovery dialog is launched for
  it, and the fields after it in the same notification are not processed.
\<close>

theorem duplicate_announcement_raises:
  assumes "f \<in> fst ` set (suggestionCommands s)"
  shows "onStateChanged RejectDuplicate (Some ((''fork_'' @ f) # names)) s =
           (Some (AlreadyRegistered f), s)"
  using assms by (simp add: onStateChanged_def announce_def addCommand_def)

theorem duplicate_announcement_raises_witness:
  "''f1'' \<in> fst ` set (suggestionCommands
      (run RejectDuplicate (createNew ''room'') [Changed (Some [''fork_f1''])])) \<and>
   onStateChanged RejectDuplicate (Some ((''fork_'' @ ''f1'') # [''fork_f2'']))
     (run RejectDuplicate (createNew ''room'') [Changed (Some [''fork_f1''])]) =
     (Some (AlreadyRegistered ''f1''),
      run RejectDuplicate (createNew ''room'') [Changed (Some [''fork_f1''])])"
proof -
  have h: "''f1'' \<in> fst ` set (suggestionCommands
      (run RejectDuplicate (createNew ''room'') [Changed (Some [''fork_f1''])]))"
    by (simp add: eval_defs)
  from duplicate_announcement_raises[OF h, of "[''fork_f2'']"] h
  show ?thesis by blast
qed

subsection \<open>C7: announcement keys with an empty id or the root id\<close>

text \<open>
  C7, as claimed: a key \<open>fork_\<close> with an empty id, or with the id of the root room,
  registers nothing and prompts nothing. The listener has no such test: on a fresh panel
  the key \<open>fork_\<close> puts an item with the empty id in the suggestion menu, and the key made
  of the root room's id is registered and launches the discovery dialog.
\<close>

theorem malformed_key_ignored_counterexample:
  "suggestionItems (snd (onStateChanged RejectDuplicate (Some [''fork_''])
      (createNew ''room''))) = [''root'', ''''] \<and>
   suggestionCommands (snd (onStateChanged RejectDuplicate (Some [''fork_''])
      (createNew ''room''))) = [(''root'', RootCommand), ('''', ForkCommand '''')] \<and>
   suggestionItems (snd (onStateChanged RejectDuplicate (Some [''fork_room''])
      (createNew ''room''))) = [''root'', ''room''] \<and>
   calls (snd (onStateChanged RejectDuplicate (Some [''fork_room''])
      (createNew ''room''))) = [DiscoveryDialog ''room'']"
  by (simp add: eval_defs)

text \<open>
  C7, amended. A key with the prefix \<open>fork_\<close> whose id is empty or is \<open>rootRoomId\<close> is
  handled like every other announcement: if the id is not registered yet, it becomes a
  command and an item of the suggestion menu, and the discovery dialog is launched for it
  exactly when \<open>myForkId\<close> is neither \<open>pending\<close> nor that id.
\<close>

theorem malformed_key_registered:
  assumes "fid = '''' \<or> fid = rootRoomId s"
    and "fid \<notin> fst ` set (suggestionCommands s)"
  shows "onStateChanged pol (Some [''fork_'' @ fid]) s =
           (None,
            if myForkId s \<noteq> ''pending'' \<and> myForkId s \<noteq> fid
            then s\<lparr>suggestionCommands := suggestionCommands s @ [(fid, ForkCommand fid)],
                   suggestionItems := suggestionItems s @ [fid],
                   openDialogs := openDialogs s @ [fid],
                   calls := calls s @ [DiscoveryDialog fid]\<rparr>
            else s\<lparr>suggestionCommands := suggestionCommands s @ [(fid, ForkCommand fid)],
                   suggestionItems := suggestionItems s @ [fid]\<rparr>)"
  using assms(2) by (simp add: onStateChanged_def announce_def addCommand_def)

theorem malformed_key_registered_witness:
  "(''room'' = '''' \<or> ''room'' = rootRoomId (createNew ''room'')) \<and>
   ''room'' \<notin> fst ` set (suggestionCommands (createNew ''room'')) \<and>
   onStateChanged RejectDuplicate (Some [''fork_'' @ ''room'']) (createNew ''room'') =
     (None,
      \<lparr>myForkId = '''', editingLabel = ''Editing'', suggestionLabel = ''Root'',
       suggestionCommands = [(''root'', RootCommand), (''room'', ForkCommand ''room'')],
       suggestionItems = [''root'', ''room''], reviewItems = [],
       rootRoomId = ''room'', currentRoomId = ''room'', pendingForks = 0,
       openDialogs = [''room''], calls = [DiscoveryDialog ''room'']\<rparr>)"
proof -
  have h1: "''room'' = '''' \<or> ''room'' = rootRoomId (createNew ''room'')"
    by (simp add: createNew_def)
  have h2: "''room'' \<notin> fst ` set (suggestionCommands (createNew ''room''))"
    by (simp add: createNew_def)
  from malformed_key_registered[OF h1 h2, of RejectDuplicate] h1 h2
  show ?thesis by (simp add: createNew_def)
qed

subsection \<open>C8: the command Merge\<close>

text \<open>
  C8. While \<open>Merge\<close> is in the review menu, selecting it issues one call
  \<open>requestDocMerge(currentRoomId, rootRoomId)\<close> and changes nothing in the panel: the
  titles, \<open>myForkId\<close>, the current room and the menus are the same, and no continuation is
  left pending.
\<close>

theorem merge_issues_one_request:
  assumes "''merge'' \<in> set (reviewItems s)"
  shows "step pol s (SelectReview ''merge'') =
           s\<lparr>calls := calls s @ [RequestDocMerge (currentRoomId s) (rootRoomId s)]\<rparr>"
  using assms by (simp add: mergeExecute_def)

theorem merge_issues_one_request_witness:
  "''merge'' \<in> set (reviewItems (run RejectDuplicate (createNew ''room'')
      [Changed (Some [''fork_f1'']), DiscoveryAnswered ''f1'' True])) \<and>
   step RejectDuplicate
     (run RejectDuplicate (createNew ''room'')
        [Changed (Some [''fork_f1'']), DiscoveryAnswered ''f1'' True])
     (SelectReview ''merge'') =
   \<lparr>myForkId = '''', editingLabel = ''Editing'', suggestionLabel = ''f1'',
    suggestionCommands = [(''root'', RootCommand), (''f1'', ForkCommand ''f1'')],
    suggestionItems = [''root'', ''f1''], reviewItems = [''merge'', ''discard''],
    rootRoomId = ''room'', currentRoomId = ''f1'', pendingForks = 0, openDialogs = [],
    calls = [DiscoveryDialog ''f1'', ConnectFork ''f1'', RequestDocMerge ''f1'' ''room'']\<rparr>"
proof -
  have e: "run RejectDuplicate (createNew ''room'')
        [Changed (Some [''fork_f1'']), DiscoveryAnswered ''f1'' True] =
   \<lparr>myForkId = '''', editingLabel = ''Editing'', suggestionLabel = ''f1'',
    suggestionCommands = [(''root'', RootCommand), (''f1'', ForkCommand ''f1'')],
    suggestionItems = [''root'', ''f1''], reviewItems = [''merge'', ''discard''],
    rootRoomId = ''room'', currentRoomId = ''f1'', pendingForks = 0, openDialogs = [],
    calls = [DiscoveryDialog ''f1'', ConnectFork ''f1'']\<rparr>"
    by (simp add: eval_defs)
  have h: "''merge'' \<in> set (reviewItems (run RejectDuplicate (createNew ''room'')
      [Changed (Some [''fork_f1'']), DiscoveryAnswered ''f1'' True]))"
    by (simp add: e)
  from merge_issues_one_request[OF h, of RejectDuplicate] h
  show ?thesis by (simp add: e)
qed

subsection \<open>C9: Suggesting while the fork request is pending\<close>

text \<open>
  C9. When \<open>Suggesting\<close> is selected while \<open>myForkId\<close> is the placeholder \<open>pending\<close>, no
  \<open>fork()\<close> call is issued: the only call is \<open>connectFork\<close> with the string \<open>pending\<close>, and
  the title of the suggestion menu becomes \<open>pending\<close>.
\<close>

theorem suggesting_while_pending:
  assumes "myForkId s = ''pending''"
  shows "calls (step pol s SelectSuggesting) = calls s @ [ConnectFork ''pending''] \<and>
         suggestionLabel (step pol s SelectSuggesting) = ''pending'' \<and>
         myForkId (step pol s SelectSuggesting) = ''pending'' \<and>
         pendingForks (step pol s SelectSuggesting) = pendingForks s"
  using assms by (simp add: suggestingExecute_def connectFork_def)

theorem suggesting_while_pending_witness:
  "myForkId (run RejectDuplicate (createNew ''room'') [SelectSuggesting]) = ''pending'' \<and>
   calls (step RejectDuplicate (run RejectDuplicate (createNew ''room'') [SelectSuggesting])
      SelectSuggesting) = [Fork, ConnectFork ''pending''] \<and>
   suggestionLabel (step RejectDuplicate
      (run RejectDuplicate (createNew ''room'') [SelectSuggesting]) SelectSuggesting) =
      ''pending''"
proof -
  have h: "myForkId (run RejectDuplicate (createNew ''room'') [SelectSuggesting]) = ''pending''"
    by (simp add: eval_defs)
  have c: "calls (run RejectDuplicate (createNew ''room'') [SelectSuggesting]) = [Fork]"
    by (simp add: eval_defs)
  from suggesting_while_pending[OF h, of RejectDuplicate] h c
  show ?thesis by simp
qed

subsection \<open>C10: the command Editing\<close>

text \<open>
  C10. The command \<open>Editing\<close> sets the two menu titles and does nothing else: it issues no
  call (so no \<open>connectFork\<close>), and the current room, \<open>myForkId\<close> and the review menu are
  unchanged. The handler of \<open>Root\<close> is the one that calls \<open>connectFork\<close> with
  \<open>rootRoomId\<close>.
\<close>

theorem editing_changes_labels_only:
  "step pol s SelectEditing = s\<lparr>editingLabel := ''Editing'', suggestionLabel := ''Root''\<rparr> \<and>
   calls (step pol s SelectEditing) = calls s \<and>
   currentRoomId (step pol s SelectEditing) = currentRoomId s \<and>
   myForkId (step pol s SelectEditing) = myForkId s \<and>
   reviewItems (step pol s SelectEditing) = reviewItems s \<and>
   calls (rootExecute s) = calls s @ [ConnectFork (rootRoomId s)]"
  by (simp add: editingExecute_def rootExecute_def connectFork_def)

end
